theory Spec2Isabelle
  imports Main
begin

section \<open>The blocking-window evaluator of change-control-lambda/lib/time-window.ts\<close>

subsection \<open>Dates and their comparison\<close>

text \<open>
  A JavaScript \<open>Date\<close> holds a time value: an integral number of milliseconds since the
  epoch, of absolute value at most 8.64e15, or NaN (an "Invalid Date"). Every integer of
  that range is an exact double, so the time value is an \<open>int\<close> here. The dates the
  program builds, with \<open>new_Date\<close> below, are in that range; no property proved here
  needs it of the dates it is given.
\<close>

datatype Date = Date int | InvalidDate

text \<open>A number of the program: an integer, or NaN (\<open>None\<close>).\<close>

type_synonym number = "int option"

definition getTime :: "Date \<Rightarrow> number" where
  "getTime d = (case d of Date t \<Rightarrow> Some t | InvalidDate \<Rightarrow> None)"

definition maxTime :: int where
  "maxTime = 8640000000000000"

text \<open>
  \<open>new Date(v)\<close> for a number \<open>v\<close>: the time value is \<open>TimeClip(v)\<close>, which is NaN when
  \<open>v\<close> is NaN or \<open>abs v > 8.64e15\<close>.
\<close>

definition new_Date :: "number \<Rightarrow> Date" where
  "new_Date v = (case v of None \<Rightarrow> InvalidDate
                 | Some t \<Rightarrow> if \<bar>t\<bar> > maxTime then InvalidDate else Date t)"

text \<open>
  The operands of \<open>>=\<close> and \<open><=\<close> in \<open>isBetween\<close> are dates, or \<open>undefined\<close> where a
  record has no such property (\<open>None\<close>). Both operators convert their operands to numbers
  (a date to its time value, \<open>undefined\<close> to NaN) and are false as soon as one is NaN.
\<close>

definition toNumber :: "Date option \<Rightarrow> number" where
  "toNumber v = (case v of None \<Rightarrow> None | Some d \<Rightarrow> getTime d)"

definition ge :: "Date option \<Rightarrow> Date option \<Rightarrow> bool" where
  "ge a b = (case toNumber a of None \<Rightarrow> False
             | Some x \<Rightarrow> (case toNumber b of None \<Rightarrow> False | Some y \<Rightarrow> x \<ge> y))"

definition le :: "Date option \<Rightarrow> Date option \<Rightarrow> bool" where
  "le a b = (case toNumber a of None \<Rightarrow> False
             | Some x \<Rightarrow> (case toNumber b of None \<Rightarrow> False | Some y \<Rightarrow> x \<le> y))"

subsection \<open>Calendar events\<close>

text \<open>
  The interface \<open>CalendarEvent\<close>. The records come from the untyped parser, so a record
  may lack \<open>start\<close> or \<open>end\<close> at run time: reading the property then gives \<open>undefined\<close>,
  which is \<open>None\<close> here. The collection \<open>Events\<close> is an object keyed by uuid; it is
  kept as the list of its entries in property order, the order of \<open>Object.values\<close>.
\<close>

record CalendarEvent =
  summary :: string
  start :: "Date option"
  end' :: "Date option"
  dtstamp :: "Date option"
  type :: string
  params :: "string list option"
  datetype :: string

type_synonym Events = "(string \<times> CalendarEvent) list"

definition Object_values :: "Events \<Rightarrow> CalendarEvent list" where
  "Object_values events = map snd events"

subsection \<open>The evaluator\<close>

definition isBetween :: "Date option \<Rightarrow> Date option \<Rightarrow> Date option \<Rightarrow> bool" where
  "isBetween date left right = (ge date left \<and> le date right)"

definition happensBetween :: "CalendarEvent \<Rightarrow> Date \<Rightarrow> Date \<Rightarrow> bool" where
  "happensBetween event fromDate toDate =
     (isBetween (Some fromDate) (start event) (end' event)
      \<or> isBetween (Some toDate) (start event) (end' event)
      \<or> isBetween (start event) (Some fromDate) (Some toDate)
      \<or> isBetween (end' event) (Some fromDate) (Some toDate))"

text \<open>
  The margin is a number of seconds (3600 when the caller gives none); it is an integer
  here. The sum
  \<open>date.getTime() + advanceMarginSec * 1_000\<close> is NaN when the date is invalid, and for an
  integral margin the double arithmetic is exact wherever the sum is a valid time value.
\<close>

definition bufferedDate :: "Date \<Rightarrow> int \<Rightarrow> Date" where
  "bufferedDate date advanceMarginSec =
     new_Date (case getTime date of None \<Rightarrow> None
               | Some t \<Rightarrow> Some (t + advanceMarginSec * 1000))"

definition containingEventsWithMargin :: "Events \<Rightarrow> Date \<Rightarrow> int \<Rightarrow> CalendarEvent list" where
  "containingEventsWithMargin events date advanceMarginSec =
     (let bufferedDate = bufferedDate date advanceMarginSec
      in filter (\<lambda>e. happensBetween e date bufferedDate)
           (filter (\<lambda>e. type e = ''VEVENT'') (Object_values events)))"

text \<open>
  \<open>shouldBlockPipeline\<close> after the parser has run: \<open>events\<close> is what \<open>ical.parseICS\<close>
  returned. The result \<open>undefined\<close> is \<open>None\<close>.
\<close>

definition shouldBlockPipeline :: "Events \<Rightarrow> Date \<Rightarrow> int \<Rightarrow> CalendarEvent option" where
  "shouldBlockPipeline events now advanceMarginSec =
     (let blocks = containingEventsWithMargin events now advanceMarginSec
      in if length blocks > 0 then Some (blocks ! 0) else None)"

subsection \<open>Conflicting entries\<close>

text \<open>
  An entry conflicts with the search window when it passes both filters of
  \<open>containingEventsWithMargin\<close>: it is of the event kind and \<open>happensBetween\<close> holds
  for it between \<open>now\<close> and the buffered date.
\<close>

definition conflicting :: "CalendarEvent \<Rightarrow> Date \<Rightarrow> int \<Rightarrow> bool" where
  "conflicting e now advanceMarginSec =
     (type e = ''VEVENT'' \<and> happensBetween e now (bufferedDate now advanceMarginSec))"

text \<open>What the decision reads of an entry: its bounds and its kind.\<close>

definition decisive :: "CalendarEvent \<Rightarrow> Date option \<times> Date option \<times> string" where
  "decisive e = (start e, end' e, type e)"

subsection \<open>Sample calendars\<close>

text \<open>
  Times of day in milliseconds: 08:00 is 28800000, 09:30 is 34200000, 10:00 is 36000000,
  10:30 is 37800000 and 11:00 is 39600000.
\<close>

definition freeze :: CalendarEvent where
  "freeze = \<lparr>summary = ''Release freeze'', start = Some (Date 36000000),
     end' = Some (Date 39600000), dtstamp = None, type = ''VEVENT'', params = None,
     datetype = ''date-time''\<rparr>"

definition timezone :: CalendarEvent where
  "timezone = \<lparr>summary = ''Europe/Berlin'', start = Some (Date 0),
     end' = Some (Date 99999999), dtstamp = None, type = ''VTIMEZONE'', params = None,
     datetype = ''date-time''\<rparr>"

text \<open>An event that ends before it starts, and one without \<open>start\<close>.\<close>

definition inverted :: CalendarEvent where
  "inverted = \<lparr>summary = ''Inverted'', start = Some (Date 36000000),
     end' = Some (Date 30000000), dtstamp = None, type = ''VEVENT'', params = None,
     datetype = ''date-time''\<rparr>"

definition headless :: CalendarEvent where
  "headless = \<lparr>summary = ''No start'', start = None,
     end' = Some (Date 36000000), dtstamp = None, type = ''VEVENT'', params = None,
     datetype = ''date-time''\<rparr>"

definition calendar :: Events where
  "calendar = [(''tz'', timezone), (''uid-1'', freeze)]"

section \<open>Properties\<close>

subsection \<open>Comparisons\<close>

lemma ge_Date [simp]: "ge (Some (Date x)) (Some (Date y)) \<longleftrightarrow> y \<le> x"
  by (simp add: ge_def toNumber_def getTime_def)

lemma le_Date [simp]: "le (Some (Date x)) (Some (Date y)) \<longleftrightarrow> x \<le> y"
  by (simp add: le_def toNumber_def getTime_def)

lemma ge_NaN [simp]:
  "\<not> ge None b" "\<not> ge a None" "\<not> ge (Some InvalidDate) b" "\<not> ge a (Some InvalidDate)"
  by (simp_all add: ge_def toNumber_def getTime_def split: option.splits)

lemma le_NaN [simp]:
  "\<not> le None b" "\<not> le a None" "\<not> le (Some InvalidDate) b" "\<not> le a (Some InvalidDate)"
  by (simp_all add: le_def toNumber_def getTime_def split: option.splits)

text \<open>A value that is neither missing nor an invalid date is an instant.\<close>

lemma date_value_cases:
  obtains (missing) "v = None" | (invalid) "v = Some InvalidDate" | (instant) t where "v = Some (Date t)"
proof (cases v)
  case None
  then show ?thesis by (rule missing)
next
  case (Some d)
  then show ?thesis by (cases d) (auto intro: invalid instant)
qed

lemma bufferedDate_Date:
  "bufferedDate (Date n) m =
     (if \<bar>n + m * 1000\<bar> > maxTime then InvalidDate else Date (n + m * 1000))"
  by (simp add: bufferedDate_def new_Date_def getTime_def)

lemma bufferedDate_InvalidDate [simp]: "bufferedDate InvalidDate m = InvalidDate"
  by (simp add: bufferedDate_def new_Date_def getTime_def)

subsection \<open>The verdict is the first conflicting entry\<close>

lemma first_of_filter:
  "(if length (filter P xs) > 0 then Some (filter P xs ! 0) else None) = List.find P xs"
  by (induction xs) (auto split: if_splits)

lemma shouldBlockPipeline_conv_find:
  "shouldBlockPipeline events now m =
     List.find (\<lambda>e. conflicting e now m) (Object_values events)"
proof -
  have "filter (\<lambda>e. happensBetween e now (bufferedDate now m))
          (filter (\<lambda>e. type e = ''VEVENT'') (Object_values events))
        = filter (\<lambda>e. conflicting e now m) (Object_values events)"
    by (simp add: conflicting_def conj_commute)
  then show ?thesis
    unfolding shouldBlockPipeline_def containingEventsWithMargin_def Let_def
    by (simp only: first_of_filter)
qed

lemma blocked_iff:
  "shouldBlockPipeline events now m \<noteq> None
   \<longleftrightarrow> (\<exists>e \<in> set (Object_values events). conflicting e now m)"
  by (auto simp: shouldBlockPipeline_conv_find find_None_iff)

text \<open>
  Claim C1. For an event whose bounds are instants with \<open>start \<le> end\<close>, and a window from
  \<open>now\<close> to \<open>now + margin\<close> with a non-negative margin (all in milliseconds), the
  four-clause predicate
  \<open>happensBetween\<close> holds exactly when \<open>start \<le> now + margin\<close> and \<open>end \<ge> now\<close>.
\<close>

theorem happensBetween_iff_overlap:
  assumes "start e = Some (Date s)" and "end' e = Some (Date t)"
    and "s \<le> t" and "0 \<le> margin"
  shows "happensBetween e (Date now) (Date (now + margin))
         \<longleftrightarrow> s \<le> now + margin \<and> t \<ge> now"
  using assms by (auto simp: happensBetween_def isBetween_def)

theorem happensBetween_iff_overlap_witness:
  "start freeze = Some (Date 36000000) \<and> end' freeze = Some (Date 39600000)
   \<and> (36000000::int) \<le> 39600000 \<and> (0::int) \<le> 3600000
   \<and> (happensBetween freeze (Date 34200000) (Date (34200000 + 3600000))
        \<longleftrightarrow> (36000000::int) \<le> 34200000 + 3600000 \<and> (39600000::int) \<ge> 34200000)
   \<and> happensBetween freeze (Date 34200000) (Date (34200000 + 3600000))"
proof -
  have s: "start freeze = Some (Date 36000000)" by (simp add: freeze_def)
  have t: "end' freeze = Some (Date 39600000)" by (simp add: freeze_def)
  have o: "(36000000::int) \<le> 39600000" by simp
  have m: "(0::int) \<le> 3600000" by simp
  show ?thesis
    using happensBetween_iff_overlap [OF s t o m, of 34200000] s t by simp
qed

text \<open>
  Claim C5. If some entry of the collection conflicts with the search window, the
  evaluator returns one event: the first conflicting entry in the order of
  \<open>Object.values\<close>, so that no entry before it conflicts. If no entry conflicts it
  returns the no-block value.
\<close>

theorem shouldBlockPipeline_first_conflicting:
  "(if \<exists>e \<in> set (Object_values events). conflicting e now m
    then \<exists>i < length (Object_values events).
           shouldBlockPipeline events now m = Some (Object_values events ! i)
           \<and> conflicting (Object_values events ! i) now m
           \<and> (\<forall>j < i. \<not> conflicting (Object_values events ! j) now m)
    else shouldBlockPipeline events now m = None)"
proof (cases "\<exists>e \<in> set (Object_values events). conflicting e now m")
  case True
  then obtain r where r: "List.find (\<lambda>e. conflicting e now m) (Object_values events) = Some r"
    by (cases "List.find (\<lambda>e. conflicting e now m) (Object_values events)")
       (auto simp: find_None_iff)
  then obtain i where "i < length (Object_values events)"
    "conflicting (Object_values events ! i) now m" "r = Object_values events ! i"
    "\<forall>j < i. \<not> conflicting (Object_values events ! j) now m"
    unfolding find_Some_iff by blast
  with r True show ?thesis
    by (auto simp: shouldBlockPipeline_conv_find)
next
  case False
  then show ?thesis
    by (simp add: shouldBlockPipeline_conv_find find_None_iff)
qed

theorem shouldBlockPipeline_first_conflicting_witness:
  "(\<exists>e \<in> set (Object_values calendar). conflicting e (Date 34200000) 3600)
   \<and> shouldBlockPipeline calendar (Date 34200000) 3600 = Some freeze"
proof -
  have vs: "Object_values calendar = [timezone, freeze]"
    by (simp add: Object_values_def calendar_def)
  have tz: "\<not> conflicting timezone (Date 34200000) 3600"
    by (simp add: conflicting_def timezone_def)
  have fr: "conflicting freeze (Date 34200000) 3600"
    by (simp add: conflicting_def freeze_def happensBetween_def isBetween_def
        bufferedDate_Date maxTime_def)
  have ex: "\<exists>e \<in> set (Object_values calendar). conflicting e (Date 34200000) 3600"
    using fr by (simp add: vs)
  with shouldBlockPipeline_first_conflicting [of calendar "Date 34200000" 3600]
  obtain i where i: "i < length (Object_values calendar)"
    "shouldBlockPipeline calendar (Date 34200000) 3600 = Some (Object_values calendar ! i)"
    "conflicting (Object_values calendar ! i) (Date 34200000) 3600"
    by auto
  from i(1) have "i = 0 \<or> i = 1" by (auto simp: vs)
  with i(3) tz have "i = 1" by (auto simp: vs)
  with i(2) have "shouldBlockPipeline calendar (Date 34200000) 3600 = Some freeze"
    by (simp add: vs)
  with ex show ?thesis by simp
qed

subsection \<open>Entries of another kind\<close>

lemma find_filter_implied:
  "(\<And>x. P x \<Longrightarrow> Q x) \<Longrightarrow> List.find P (filter Q xs) = List.find P xs"
  by (induction xs) auto

lemma Object_values_filter:
  "Object_values (filter (\<lambda>(uuid, e). Q e) events) = filter Q (Object_values events)"
  by (induction events) (auto simp: Object_values_def)

text \<open>
  Claim C6. Entries whose kind is not \<open>VEVENT\<close> do not affect the verdict, whatever
  their bounds are: the evaluator returns the same result on the collection restricted to
  the entries of kind \<open>VEVENT\<close>, and the event it returns is of kind \<open>VEVENT\<close>.
\<close>

theorem shouldBlockPipeline_ignores_other_kinds:
  "shouldBlockPipeline events now m
     = shouldBlockPipeline (filter (\<lambda>(uuid, e). type e = ''VEVENT'') events) now m
   \<and> (\<forall>r. shouldBlockPipeline events now m = Some r \<longrightarrow> type r = ''VEVENT'')"
proof
  have "List.find (\<lambda>e. conflicting e now m) (filter (\<lambda>e. type e = ''VEVENT'') (Object_values events))
        = List.find (\<lambda>e. conflicting e now m) (Object_values events)"
    by (rule find_filter_implied) (simp add: conflicting_def)
  then show "shouldBlockPipeline events now m
     = shouldBlockPipeline (filter (\<lambda>(uuid, e). type e = ''VEVENT'') events) now m"
    by (simp add: shouldBlockPipeline_conv_find Object_values_filter)
next
  show "\<forall>r. shouldBlockPipeline events now m = Some r \<longrightarrow> type r = ''VEVENT''"
    by (auto simp: shouldBlockPipeline_conv_find find_Some_iff conflicting_def)
qed

theorem shouldBlockPipeline_ignores_other_kinds_witness:
  "shouldBlockPipeline calendar (Date 28800000) 3600
     = shouldBlockPipeline [(''uid-1'', freeze)] (Date 28800000) 3600
   \<and> shouldBlockPipeline [(''uid-1'', freeze)] (Date 28800000) 3600 = None
   \<and> isBetween (Some (Date 28800000)) (start timezone) (end' timezone)"
proof -
  have "filter (\<lambda>(uuid, e). type e = ''VEVENT'') calendar = [(''uid-1'', freeze)]"
    by (simp add: calendar_def timezone_def freeze_def)
  with shouldBlockPipeline_ignores_other_kinds [of calendar "Date 28800000" 3600]
  have "shouldBlockPipeline calendar (Date 28800000) 3600
     = shouldBlockPipeline [(''uid-1'', freeze)] (Date 28800000) 3600"
    by simp
  moreover have "shouldBlockPipeline [(''uid-1'', freeze)] (Date 28800000) 3600 = None"
    by (simp add: shouldBlockPipeline_conv_find Object_values_def conflicting_def
        freeze_def happensBetween_def isBetween_def bufferedDate_Date maxTime_def)
  moreover have "isBetween (Some (Date 28800000)) (start timezone) (end' timezone)"
    by (simp add: timezone_def isBetween_def)
  ultimately show ?thesis by simp
qed

subsection \<open>An event that contains now\<close>

text \<open>
  Claim C8. If the collection has an entry of kind \<open>VEVENT\<close> whose interval contains
  \<open>now\<close> (\<open>start \<le> now \<le> end\<close>), the evaluator returns a blocking event for every
  non-negative margin: an entry of the collection, of kind \<open>VEVENT\<close>, for which
  \<open>happensBetween\<close> holds between \<open>now\<close> and the buffered date, and the first such
  entry in the order of \<open>Object.values\<close>.
\<close>

theorem shouldBlockPipeline_inside_event:
  assumes "(uuid, e) \<in> set events" and "type e = ''VEVENT''"
    and "isBetween (Some now) (start e) (end' e)" and "0 \<le> m"
  shows "\<exists>r. shouldBlockPipeline events now m = Some r
           \<and> r \<in> set (Object_values events)
           \<and> type r = ''VEVENT''
           \<and> happensBetween r now (bufferedDate now m)
           \<and> (\<exists>i < length (Object_values events). r = Object_values events ! i
                \<and> (\<forall>j < i. \<not> conflicting (Object_values events ! j) now m))"
proof -
  from assms(2,3) have "conflicting e now m"
    by (simp add: conflicting_def happensBetween_def)
  moreover from assms(1) have "e \<in> set (Object_values events)"
    by (force simp: Object_values_def)
  ultimately have "shouldBlockPipeline events now m \<noteq> None"
    unfolding blocked_iff by blast
  then obtain r where r: "List.find (\<lambda>e. conflicting e now m) (Object_values events) = Some r"
    by (auto simp: shouldBlockPipeline_conv_find)
  then obtain i where i: "i < length (Object_values events)"
    "conflicting (Object_values events ! i) now m" "r = Object_values events ! i"
    "\<forall>j < i. \<not> conflicting (Object_values events ! j) now m"
    unfolding find_Some_iff by blast
  from i(1,3) have "r \<in> set (Object_values events)" by simp
  moreover from i(2,3) have "type r = ''VEVENT''" "happensBetween r now (bufferedDate now m)"
    by (simp_all add: conflicting_def)
  ultimately show ?thesis
    using r i(1,3,4) by (auto simp: shouldBlockPipeline_conv_find)
qed

theorem shouldBlockPipeline_inside_event_witness:
  "(''uid-1'', freeze) \<in> set calendar \<and> type freeze = ''VEVENT''
   \<and> isBetween (Some (Date 37800000)) (start freeze) (end' freeze) \<and> (0::int) \<le> 86400
   \<and> isBetween (Some (Date 37800000)) (start timezone) (end' timezone)
   \<and> shouldBlockPipeline calendar (Date 37800000) 86400 = Some freeze"
proof -
  have a: "(''uid-1'', freeze) \<in> set calendar" by (simp add: calendar_def)
  have b: "type freeze = ''VEVENT''" by (simp add: freeze_def)
  have c: "isBetween (Some (Date 37800000)) (start freeze) (end' freeze)"
    by (simp add: freeze_def isBetween_def)
  have d: "(0::int) \<le> 86400" by simp
  have tz: "isBetween (Some (Date 37800000)) (start timezone) (end' timezone)"
    by (simp add: timezone_def isBetween_def)
  have vs: "Object_values calendar = [timezone, freeze]"
    by (simp add: Object_values_def calendar_def)
  have k: "type timezone \<noteq> ''VEVENT''" by (simp add: timezone_def)
  from shouldBlockPipeline_inside_event [OF a b c d]
  obtain r where r: "shouldBlockPipeline calendar (Date 37800000) 86400 = Some r"
    "r \<in> set (Object_values calendar)" "type r = ''VEVENT''"
    by blast
  from r(2,3) k have "r = freeze" by (auto simp: vs)
  with r(1) a b c d tz show ?thesis by simp
qed

subsection \<open>The informational fields\<close>

lemma conflicting_decisive:
  "decisive e1 = decisive e2 \<Longrightarrow> conflicting e1 now m = conflicting e2 now m"
  by (simp add: decisive_def conflicting_def happensBetween_def)

lemma find_decisive:
  assumes "\<And>x y. f x = f y \<Longrightarrow> P x = P y"
  shows "map f xs = map f ys \<Longrightarrow> map_option f (List.find P xs) = map_option f (List.find P ys)"
proof (induction xs arbitrary: ys)
  case Nil
  then show ?case by simp
next
  case (Cons x xs)
  then obtain y ys' where ys: "ys = y # ys'" "f x = f y" "map f xs = map f ys'"
    by (cases ys) auto
  from assms ys(2) have "P x = P y" by blast
  with Cons.IH [OF ys(3)] ys show ?case by simp
qed

text \<open>
  Claim C9. Two collections whose entries agree, in order, on \<open>start\<close>, \<open>end\<close> and
  \<open>type\<close> get the same verdict for every \<open>now\<close> and margin, whatever their
  \<open>summary\<close>, \<open>dtstamp\<close>, \<open>params\<close>, \<open>datetype\<close> and keys are: both are blocked or
  neither is, and the events returned agree on \<open>start\<close>, \<open>end\<close> and \<open>type\<close>.
\<close>

theorem shouldBlockPipeline_depends_on_decisive:
  assumes "map decisive (Object_values events1) = map decisive (Object_values events2)"
  shows "(shouldBlockPipeline events1 now m = None \<longleftrightarrow> shouldBlockPipeline events2 now m = None)
         \<and> map_option decisive (shouldBlockPipeline events1 now m)
             = map_option decisive (shouldBlockPipeline events2 now m)"
proof -
  have eq: "map_option decisive (shouldBlockPipeline events1 now m)
             = map_option decisive (shouldBlockPipeline events2 now m)"
    unfolding shouldBlockPipeline_conv_find
    using assms by (rule find_decisive [rotated]) (rule conflicting_decisive)
  then have "shouldBlockPipeline events1 now m = None \<longleftrightarrow> shouldBlockPipeline events2 now m = None"
    by (metis option.map_disc_iff)
  with eq show ?thesis by simp
qed

theorem shouldBlockPipeline_depends_on_decisive_witness:
  "map decisive (Object_values calendar)
     = map decisive (Object_values
         [(''a'', timezone\<lparr>summary := ''UTC''\<rparr>),
          (''b'', freeze\<lparr>summary := ''Holiday'', dtstamp := Some (Date 5), params := Some [''x'']\<rparr>)])
   \<and> map_option decisive (shouldBlockPipeline
         [(''a'', timezone\<lparr>summary := ''UTC''\<rparr>),
          (''b'', freeze\<lparr>summary := ''Holiday'', dtstamp := Some (Date 5), params := Some [''x'']\<rparr>)]
         (Date 34200000) 3600)
       = Some (decisive freeze)"
proof -
  have a: "map decisive (Object_values calendar)
     = map decisive (Object_values
         [(''a'', timezone\<lparr>summary := ''UTC''\<rparr>),
          (''b'', freeze\<lparr>summary := ''Holiday'', dtstamp := Some (Date 5), params := Some [''x'']\<rparr>)])"
    by (simp add: Object_values_def calendar_def decisive_def)
  have b: "shouldBlockPipeline calendar (Date 34200000) 3600 = Some freeze"
    by (simp add: shouldBlockPipeline_conv_find Object_values_def calendar_def conflicting_def
        freeze_def timezone_def happensBetween_def isBetween_def bufferedDate_Date maxTime_def)
  from shouldBlockPipeline_depends_on_decisive [OF a, of "Date 34200000" 3600] a b
  show ?thesis by simp
qed

subsection \<open>Degenerate events\<close>

text \<open>
  Claim C10. For an event whose bounds are instants with \<open>start > end\<close>, and a window from
  \<open>now\<close> to \<open>now + margin\<close> with a non-negative margin (all in milliseconds),
  \<open>happensBetween\<close> holds exactly
  when \<open>start\<close> or \<open>end\<close> lies in the window: no instant is in the event, so the first
  two clauses are false.
\<close>

theorem happensBetween_degenerate:
  assumes "start e = Some (Date s)" and "end' e = Some (Date t)"
    and "s > t" and "0 \<le> margin"
  shows "(happensBetween e (Date now) (Date (now + margin))
          \<longleftrightarrow> isBetween (start e) (Some (Date now)) (Some (Date (now + margin)))
              \<or> isBetween (end' e) (Some (Date now)) (Some (Date (now + margin))))
         \<and> \<not> isBetween (Some (Date now)) (start e) (end' e)
         \<and> \<not> isBetween (Some (Date (now + margin))) (start e) (end' e)"
  using assms by (auto simp: happensBetween_def isBetween_def)

theorem happensBetween_degenerate_witness:
  "start (inverted) = Some (Date 36000000)
   \<and> end' (inverted) = Some (Date 30000000)
   \<and> (36000000::int) > 30000000 \<and> (0::int) \<le> 3600000
   \<and> happensBetween (inverted)
        (Date 34200000) (Date (34200000 + 3600000))
   \<and> \<not> happensBetween (inverted)
        (Date 31000000) (Date (31000000 + 3600000))"
proof -
  let ?e = "inverted"
  have s: "start ?e = Some (Date 36000000)" by (simp add: inverted_def)
  have t: "end' ?e = Some (Date 30000000)" by (simp add: inverted_def)
  have o: "(36000000::int) > 30000000" by simp
  have m: "(0::int) \<le> 3600000" by simp
  from happensBetween_degenerate [OF s t o m, of 34200000]
       happensBetween_degenerate [OF s t o m, of 31000000] s t
  show ?thesis by (simp add: isBetween_def)
qed

subsection \<open>Margin zero\<close>

lemma happensBetween_margin_zero:
  assumes "le (start e) (end' e)"
  shows "happensBetween e now (bufferedDate now 0) \<longleftrightarrow> isBetween (Some now) (start e) (end' e)"
proof -
  from assms obtain s t where st: "start e = Some (Date s)" "end' e = Some (Date t)" "s \<le> t"
    by (cases "start e" rule: date_value_cases; cases "end' e" rule: date_value_cases) auto
  show ?thesis
  proof (cases now)
    case (Date n)
    with st show ?thesis
      by (auto simp: happensBetween_def isBetween_def bufferedDate_Date)
  next
    case InvalidDate
    then show ?thesis
      by (simp add: happensBetween_def isBetween_def)
  qed
qed

text \<open>
  Claim C3, as the code has it. With margin 0 the evaluator returns a blocking event
  exactly when some entry of kind \<open>VEVENT\<close> has \<open>start \<le> now \<le> end\<close>, provided every
  entry of kind \<open>VEVENT\<close> has \<open>start \<le> end\<close>.
\<close>

theorem shouldBlockPipeline_margin_zero:
  assumes "\<forall>e \<in> set (Object_values events). type e = ''VEVENT'' \<longrightarrow> le (start e) (end' e)"
  shows "(\<exists>r. shouldBlockPipeline events now 0 = Some r)
         \<longleftrightarrow> (\<exists>e \<in> set (Object_values events).
                type e = ''VEVENT'' \<and> isBetween (Some now) (start e) (end' e))"
proof -
  have "(\<exists>r. shouldBlockPipeline events now 0 = Some r)
        \<longleftrightarrow> (\<exists>e \<in> set (Object_values events). conflicting e now 0)"
    using blocked_iff [of events now 0] by auto
  also have "\<dots> \<longleftrightarrow> (\<exists>e \<in> set (Object_values events).
                type e = ''VEVENT'' \<and> isBetween (Some now) (start e) (end' e))"
    using assms by (auto simp: conflicting_def happensBetween_margin_zero)
  finally show ?thesis .
qed

theorem shouldBlockPipeline_margin_zero_witness:
  "Object_values calendar = [timezone, freeze]
   \<and> type timezone = ''VTIMEZONE'' \<and> type freeze = ''VEVENT''
   \<and> le (start freeze) (end' freeze)
   \<and> isBetween (Some (Date 37800000)) (start freeze) (end' freeze)
   \<and> (\<exists>r. shouldBlockPipeline calendar (Date 37800000) 0 = Some r)"
proof -
  have vs: "Object_values calendar = [timezone, freeze]"
    by (simp add: Object_values_def calendar_def)
  have tz: "type timezone = ''VTIMEZONE''" by (simp add: timezone_def)
  have fr: "type freeze = ''VEVENT''" by (simp add: freeze_def)
  have o: "le (start freeze) (end' freeze)" by (simp add: freeze_def)
  have c: "isBetween (Some (Date 37800000)) (start freeze) (end' freeze)"
    by (simp add: freeze_def isBetween_def)
  have a: "\<forall>e \<in> set (Object_values calendar). type e = ''VEVENT'' \<longrightarrow> le (start e) (end' e)"
    using tz o by (simp add: vs)
  have b: "\<exists>e \<in> set (Object_values calendar).
         type e = ''VEVENT'' \<and> isBetween (Some (Date 37800000)) (start e) (end' e)"
    using fr c by (simp add: vs)
  from shouldBlockPipeline_margin_zero [OF a, of "Date 37800000"] b
  have "\<exists>r. shouldBlockPipeline calendar (Date 37800000) 0 = Some r" by blast
  with vs tz fr o c show ?thesis by blast
qed

text \<open>
  Claim C3 as stated fails on an event with \<open>start > end\<close>: with \<open>start = now\<close> the
  third clause holds at margin 0, so the evaluator blocks, although no event has
  \<open>start \<le> now \<le> end\<close>.
\<close>

theorem shouldBlockPipeline_margin_zero_counterexample:
  "shouldBlockPipeline [(''uid-1'', inverted)] (Date 36000000) 0 = Some inverted
   \<and> type inverted = ''VEVENT''
   \<and> \<not> isBetween (Some (Date 36000000)) (start inverted) (end' inverted)"
  by (simp add: shouldBlockPipeline_def containingEventsWithMargin_def Object_values_def
      inverted_def happensBetween_def isBetween_def bufferedDate_Date maxTime_def)

subsection \<open>Growing the margin\<close>

lemma happensBetween_margin_mono:
  assumes "0 \<le> m1" and "m1 \<le> m2" and "bufferedDate now m2 \<noteq> InvalidDate"
    and "happensBetween e now (bufferedDate now m1)"
  shows "happensBetween e now (bufferedDate now m2)"
proof (cases now)
  case InvalidDate
  with assms(3) show ?thesis by simp
next
  case (Date n)
  with assms(3) have b2: "bufferedDate now m2 = Date (n + m2 * 1000)"
    by (simp add: bufferedDate_Date split: if_splits)
  from assms(1,2) have le: "n \<le> n + m1 * 1000" "n + m1 * 1000 \<le> n + m2 * 1000"
    by simp_all
  show ?thesis
  proof (cases "bufferedDate now m1 = InvalidDate")
    case True
    with assms(4) Date b2 le show ?thesis
      by (cases "start e" rule: date_value_cases; cases "end' e" rule: date_value_cases)
         (auto simp: happensBetween_def isBetween_def)
  next
    case False
    with Date have b1: "bufferedDate now m1 = Date (n + m1 * 1000)"
      by (simp add: bufferedDate_Date split: if_splits)
    from assms(4) Date le show ?thesis
      unfolding b1 b2
      by (cases "start e" rule: date_value_cases; cases "end' e" rule: date_value_cases)
         (auto simp: happensBetween_def isBetween_def)
  qed
qed

text \<open>
  Claim C4, as the code has it. For a fixed collection and a fixed \<open>now\<close>, and
  non-negative margins \<open>m1 \<le> m2\<close> such that \<open>now\<close> plus \<open>m2\<close> seconds is still a valid
  date: if the evaluator blocks with margin \<open>m1\<close>, it blocks with margin \<open>m2\<close>.
\<close>

theorem shouldBlockPipeline_margin_mono:
  assumes "0 \<le> m1" and "m1 \<le> m2" and "bufferedDate now m2 \<noteq> InvalidDate"
    and "\<exists>r. shouldBlockPipeline events now m1 = Some r"
  shows "\<exists>r. shouldBlockPipeline events now m2 = Some r"
proof -
  from assms(4) have "shouldBlockPipeline events now m1 \<noteq> None" by auto
  then obtain e where e: "e \<in> set (Object_values events)" "conflicting e now m1"
    unfolding blocked_iff by blast
  from e(2) have "conflicting e now m2"
    using happensBetween_margin_mono [OF assms(1-3)] by (simp add: conflicting_def)
  with e(1) have "shouldBlockPipeline events now m2 \<noteq> None"
    unfolding blocked_iff by blast
  then show ?thesis by auto
qed

theorem shouldBlockPipeline_margin_mono_witness:
  "(0::int) \<le> 3600 \<and> (3600::int) \<le> 7200
   \<and> bufferedDate (Date 34200000) 7200 \<noteq> InvalidDate
   \<and> (\<exists>r. shouldBlockPipeline calendar (Date 34200000) 3600 = Some r)
   \<and> (\<exists>r. shouldBlockPipeline calendar (Date 34200000) 7200 = Some r)"
proof -
  have a: "(0::int) \<le> 3600" and b: "(3600::int) \<le> 7200" by simp_all
  have c: "bufferedDate (Date 34200000) 7200 \<noteq> InvalidDate"
    by (simp add: bufferedDate_Date maxTime_def)
  have d: "\<exists>r. shouldBlockPipeline calendar (Date 34200000) 3600 = Some r"
    by (simp add: shouldBlockPipeline_conv_find Object_values_def calendar_def conflicting_def
        freeze_def timezone_def happensBetween_def isBetween_def bufferedDate_Date maxTime_def)
  from shouldBlockPipeline_margin_mono [OF a b c d] a b c d show ?thesis by blast
qed

text \<open>
  Claim C4 as stated fails when the larger margin takes the buffered date out of the range
  of dates: at 09:30 a margin of one hour blocks on \<open>freeze\<close>, and a margin of
  8640000000000 seconds, whose buffered date is past 8.64e15 and so invalid, does not.
\<close>

theorem shouldBlockPipeline_margin_mono_counterexample:
  "(0::int) \<le> 3600 \<and> (3600::int) \<le> 8640000000000
   \<and> shouldBlockPipeline calendar (Date 34200000) 3600 = Some freeze
   \<and> shouldBlockPipeline calendar (Date 34200000) 8640000000000 = None"
  by (simp add: shouldBlockPipeline_def containingEventsWithMargin_def Object_values_def
      calendar_def freeze_def timezone_def happensBetween_def isBetween_def
      bufferedDate_Date maxTime_def)

subsection \<open>Negative margins\<close>

lemma happensBetween_negative_margin:
  assumes "m < 0"
  shows "happensBetween e now (bufferedDate now m)
         \<longleftrightarrow> isBetween (Some now) (start e) (end' e)
             \<or> isBetween (Some (bufferedDate now m)) (start e) (end' e)"
proof (cases now)
  case InvalidDate
  then show ?thesis by (simp add: happensBetween_def isBetween_def)
next
  case (Date n)
  from assms have "n + m * 1000 < n" by simp
  with Date show ?thesis
    by (cases "start e" rule: date_value_cases; cases "end' e" rule: date_value_cases)
       (auto simp: happensBetween_def isBetween_def bufferedDate_Date)
qed

text \<open>
  Claim C2, as the code has it. A negative margin is not rejected: the buffered date is
  computed, before \<open>now\<close>, and a verdict is returned. It is the first entry of kind
  \<open>VEVENT\<close> whose interval contains \<open>now\<close> or the buffered date, or the no-block value
  when there is none.
\<close>

theorem shouldBlockPipeline_negative_margin:
  assumes "m < 0"
  shows "shouldBlockPipeline events now m
         = List.find (\<lambda>e. type e = ''VEVENT''
               \<and> (isBetween (Some now) (start e) (end' e)
                  \<or> isBetween (Some (bufferedDate now m)) (start e) (end' e)))
             (Object_values events)"
  unfolding shouldBlockPipeline_conv_find conflicting_def
  by (simp only: happensBetween_negative_margin [OF assms])

theorem shouldBlockPipeline_negative_margin_witness:
  "(-3600::int) < 0
   \<and> bufferedDate (Date 41400000) (-3600) = Date 37800000
   \<and> shouldBlockPipeline calendar (Date 41400000) (-3600) = Some freeze"
proof -
  have a: "(-3600::int) < 0" by simp
  have b: "bufferedDate (Date 41400000) (-3600) = Date 37800000"
    by (simp add: bufferedDate_Date maxTime_def)
  from shouldBlockPipeline_negative_margin [OF a, of calendar "Date 41400000"] a b
  show ?thesis
    by (simp add: Object_values_def calendar_def freeze_def timezone_def isBetween_def)
qed

text \<open>
  Claim C2 as stated fails: with margin -1 the evaluator returns a verdict. Half a second
  after \<open>freeze\<close> has ended, the buffered date is half a second before its end, and
  \<open>freeze\<close> is returned as the blocking event.
\<close>

theorem shouldBlockPipeline_negative_margin_counterexample:
  "bufferedDate (Date 39600500) (-1) = Date 39599500
   \<and> shouldBlockPipeline calendar (Date 39600500) (-1) = Some freeze"
  by (simp add: shouldBlockPipeline_def containingEventsWithMargin_def Object_values_def
      calendar_def freeze_def timezone_def happensBetween_def isBetween_def
      bufferedDate_Date maxTime_def)

subsection \<open>Records without a bound\<close>

lemma happensBetween_no_start:
  "start e = None \<Longrightarrow> happensBetween e f t \<longleftrightarrow> isBetween (end' e) (Some f) (Some t)"
  by (simp add: happensBetween_def isBetween_def)

lemma happensBetween_no_end:
  "end' e = None \<Longrightarrow> happensBetween e f t \<longleftrightarrow> isBetween (start e) (Some f) (Some t)"
  by (simp add: happensBetween_def isBetween_def)

text \<open>
  Claim C7, as the code has it. The evaluator is a total function of the collection, so a
  record without \<open>start\<close> or without \<open>end\<close> raises nothing. A record that lacks both is
  never returned. A record that lacks one of them is returned only if the bound it has lies
  between \<open>now\<close> and the buffered date.
\<close>

theorem shouldBlockPipeline_missing_bound:
  assumes "shouldBlockPipeline events now m = Some e"
  shows "(start e = None \<longrightarrow> isBetween (end' e) (Some now) (Some (bufferedDate now m)))
         \<and> (end' e = None \<longrightarrow> isBetween (start e) (Some now) (Some (bufferedDate now m)))
         \<and> \<not> (start e = None \<and> end' e = None)"
proof -
  from assms have "conflicting e now m"
    by (auto simp: shouldBlockPipeline_conv_find find_Some_iff)
  then have hb: "happensBetween e now (bufferedDate now m)"
    by (simp add: conflicting_def)
  have "isBetween (end' e) (Some now) (Some (bufferedDate now m))" if "start e = None"
    using hb that by (simp add: happensBetween_no_start)
  moreover have "isBetween (start e) (Some now) (Some (bufferedDate now m))" if "end' e = None"
    using hb that by (simp add: happensBetween_no_end)
  moreover have "\<not> (start e = None \<and> end' e = None)"
    using hb by (auto simp: happensBetween_def isBetween_def)
  ultimately show ?thesis by blast
qed

theorem shouldBlockPipeline_missing_bound_witness:
  "shouldBlockPipeline [(''uid-2'', headless)] (Date 34200000) 3600 = Some headless
   \<and> start headless = None
   \<and> isBetween (end' headless) (Some (Date 34200000)) (Some (bufferedDate (Date 34200000) 3600))"
proof -
  have a: "shouldBlockPipeline [(''uid-2'', headless)] (Date 34200000) 3600 = Some headless"
    by (simp add: shouldBlockPipeline_conv_find Object_values_def conflicting_def
        headless_def happensBetween_def isBetween_def bufferedDate_Date maxTime_def)
  have b: "start headless = None" by (simp add: headless_def)
  from shouldBlockPipeline_missing_bound [OF a] a b show ?thesis by blast
qed

text \<open>
  Claim C7 as stated fails: the record \<open>headless\<close> has no \<open>start\<close>, its \<open>end\<close> lies in the
  search window, and the fourth clause makes the evaluator return it as the blocking event.
\<close>

theorem shouldBlockPipeline_missing_bound_counterexample:
  "start headless = None
   \<and> shouldBlockPipeline [(''uid-2'', headless)] (Date 34200000) 3600 = Some headless"
  by (simp add: shouldBlockPipeline_def containingEventsWithMargin_def Object_values_def
      headless_def happensBetween_def isBetween_def bufferedDate_Date maxTime_def)

end
